theory Spec2Isabelle
  imports Main
begin

section \<open>JavaScript primitives used by the parser\<close>

text \<open>
  Strings are lists of characters (one \<^typ>\<open>char\<close> per code unit of the 8-bit range);
  numbers that count lines, columns and lengths are integers.
\<close>

definition nl :: char where
  "nl = CHR 0x0A"

definition dquote :: char where
  "dquote = CHR 0x22"

definition squote :: char where
  "squote = CHR 0x27"

text \<open>
  \<^verbatim>\<open>Array.prototype.slice(start, end)\<close>: a negative index counts from the end of the
  array and is clamped at 0, a positive one is clamped at the length.
\<close>

definition js_slice :: "'a list \<Rightarrow> int \<Rightarrow> int \<Rightarrow> 'a list" where
  "js_slice xs start fin =
     (let len = int (length xs);
          k = (if start < 0 then max (len + start) 0 else min start len);
          final = (if fin < 0 then max (len + fin) 0 else min fin len)
      in take (nat (final - k)) (drop (nat k) xs))"

text \<open>\<^verbatim>\<open>String.prototype.split('\n')\<close>: the empty string gives one empty line.\<close>

fun split_nl :: "string \<Rightarrow> string list" where
  "split_nl [] = [[]]"
| "split_nl (c # cs) =
     (if c = nl then [] # split_nl cs
      else (case split_nl cs of
              [] \<Rightarrow> [[c]]
            | l # ls \<Rightarrow> (c # l) # ls))"

text \<open>\<^verbatim>\<open>Array.prototype.join(sep)\<close> on an array of strings.\<close>

fun js_join :: "string \<Rightarrow> string list \<Rightarrow> string" where
  "js_join sep [] = []"
| "js_join sep [x] = x"
| "js_join sep (x # y # ys) = x @ sep @ js_join sep (y # ys)"

text \<open>\<^verbatim>\<open>Number.prototype.toString()\<close> on an integer: decimal digits, a minus sign first.\<close>

fun nat_toString :: "nat \<Rightarrow> string" where
  "nat_toString n =
     (if n < 10 then [char_of (48 + n)]
      else nat_toString (n div 10) @ [char_of (48 + n mod 10)])"

definition js_toString :: "int \<Rightarrow> string" where
  "js_toString i = (if i < 0 then CHR ''-'' # nat_toString (nat (- i)) else nat_toString (nat i))"

text \<open>\<^verbatim>\<open>_.times(n, () => c).join('')\<close>: lodash gives the empty array for \<open>n < 1\<close>.\<close>

definition times_join :: "int \<Rightarrow> char \<Rightarrow> string" where
  "times_join n c = replicate (nat n) c"

text \<open>
  \<^verbatim>\<open>String.prototype.trim()\<close> removes white space and line terminators at both ends:
  tab, line feed, vertical tab, form feed, carriage return, space and the no-break space.
\<close>

definition js_whitespace :: "char \<Rightarrow> bool" where
  "js_whitespace c \<longleftrightarrow>
     c = CHR 0x09 \<or> c = CHR 0x0A \<or> c = CHR 0x0B \<or> c = CHR 0x0C \<or> c = CHR 0x0D \<or>
     c = CHR 0x20 \<or> c = CHR 0xA0"

definition js_trim :: "string \<Rightarrow> string" where
  "js_trim s = rev (dropWhile js_whitespace (rev (dropWhile js_whitespace s)))"

text \<open>The regular expression atom \<^verbatim>\<open>.\<close> matches every character but a line terminator.\<close>

definition js_dot :: "char \<Rightarrow> bool" where
  "js_dot c \<longleftrightarrow> c \<noteq> CHR 0x0A \<and> c \<noteq> CHR 0x0D"


section \<open>Tokens and locations\<close>

text \<open>
  A token of the lexer: \<^verbatim>\<open>{type, value, offset, size, lineBreaks, line, col}\<close>. The value is
  the text of the rule's capture group, the size the length of the whole match.
\<close>

record token =
  tok_type :: string
  tok_value :: string
  tok_offset :: int
  tok_size :: int
  tok_lineBreaks :: int
  tok_line :: int
  tok_col :: int

text \<open>\<^verbatim>\<open>class Location\<close> of lib/ast/index.js.\<close>

record Location =
  loc_offset :: int
  loc_size :: int
  loc_lineBreaks :: int
  loc_line :: int
  loc_column :: int

text \<open>
  \<^verbatim>\<open>new Location(token)\<close>: the fields of the token, or of
  \<^verbatim>\<open>{offset: 0, size: 0, lineBreaks: 0, line: 1, col: 1}\<close> when the token is missing.
\<close>

definition Location_new :: "token option \<Rightarrow> Location" where
  "Location_new token =
     (case token of
        Some t \<Rightarrow> \<lparr>loc_offset = tok_offset t, loc_size = tok_size t,
                   loc_lineBreaks = tok_lineBreaks t, loc_line = tok_line t,
                   loc_column = tok_col t\<rparr>
      | None \<Rightarrow> \<lparr>loc_offset = 0, loc_size = 0, loc_lineBreaks = 0, loc_line = 1,
                 loc_column = 1\<rparr>)"

definition Location_toString :: "Location \<Rightarrow> string" where
  "Location_toString l =
     ''[Location: Offset='' @ js_toString (loc_offset l) @
     '', Size='' @ js_toString (loc_size l) @
     '', lineBreaks='' @ js_toString (loc_lineBreaks l) @
     '', Line='' @ js_toString (loc_line l) @
     '', Column='' @ js_toString (loc_column l) @ '']''"


section \<open>The node classes\<close>

text \<open>
  Nodes are objects that refer to each other in both directions (\<^verbatim>\<open>children\<close> and
  \<^verbatim>\<open>parent\<close>), so they live in an explicit store: a list of objects, an address being an
  index into it. \<^verbatim>\<open>new\<close> appends an object; a reference held by the program is always
  the address of an object of the store.
\<close>

type_synonym addr = nat

text \<open>
  An entry of a \<^verbatim>\<open>children\<close> array (\<^verbatim>\<open>Array.Node\<close> in the class documentation): a
  node, or one of the falsy values \<^verbatim>\<open>null\<close> and \<^verbatim>\<open>undefined\<close> that an optional
  part of a grammar rule leaves behind.
\<close>

datatype child = CNull | CUndefined | CRef addr

fun js_truthy :: "child \<Rightarrow> bool" where
  "js_truthy CNull = False"
| "js_truthy CUndefined = False"
| "js_truthy (CRef a) = True"

text \<open>
  The fields the subclasses add: \<^verbatim>\<open>CommentNode\<close> has \<^verbatim>\<open>text\<close> and \<^verbatim>\<open>multiline\<close>,
  \<^verbatim>\<open>ActionNode\<close> has \<^verbatim>\<open>name\<close>, \<^verbatim>\<open>modifier\<close> and \<^verbatim>\<open>params\<close> (its label is
  set later, by \<^verbatim>\<open>setLabel\<close>). The parameters of an action are values of the value
  classes, which the node classes only store: they are the type parameter.
\<close>

datatype 'v payload =
    PNode
  | PRoot
  | PComment string bool
  | PAction string string "'v list"

record 'v node =
  children :: "child list"
  parent :: "addr option"
  location :: "Location option"
  payload :: "'v payload"

type_synonym 'v heap = "'v node list"

text \<open>The object \<^verbatim>\<open>new\<close> hands to a constructor: no field is set yet.\<close>

definition blank :: "'v payload \<Rightarrow> 'v node" where
  "blank p = \<lparr>children = [], parent = None, location = None, payload = p\<rparr>"

text \<open>\<^verbatim>\<open>child.parent = this\<close>, for an entry that passed the filter \<^verbatim>\<open>x => !!x\<close>.\<close>

fun set_parent :: "addr \<Rightarrow> 'v heap \<Rightarrow> child \<Rightarrow> 'v heap" where
  "set_parent this h (CRef a) = h[a := (h ! a)\<lparr>parent := Some this\<rparr>]"
| "set_parent this h c = h"

text \<open>
  \<^verbatim>\<open>Node.constructor(children, token)\<close>, run on the object \<open>this\<close>. The argument is
  \<open>None\<close> when it is not an array (the subclasses without a block pass \<^verbatim>\<open>null\<close>).
\<close>

definition Node_constructor ::
    "'v heap \<Rightarrow> addr \<Rightarrow> child list option \<Rightarrow> token option \<Rightarrow> 'v heap" where
  "Node_constructor h this children_arg token =
     (let h1 =
        (case children_arg of
           Some cs \<Rightarrow>
             (let cs' = filter js_truthy cs;
                  h' = foldl (set_parent this) h cs'
              in h'[this := (h' ! this)\<lparr>children := cs'\<rparr>])
         | None \<Rightarrow> h[this := (h ! this)\<lparr>children := []\<rparr>])
      in h1[this := (h1 ! this)\<lparr>location :=
              (case token of Some t \<Rightarrow> Some (Location_new (Some t)) | None \<Rightarrow> None)\<rparr>])"

definition Node_new :: "'v heap \<Rightarrow> child list option \<Rightarrow> token option \<Rightarrow> addr \<times> 'v heap" where
  "Node_new h children_arg token =
     (let this = length h
      in (this, Node_constructor (h @ [blank PNode]) this children_arg token))"

text \<open>
  \<^verbatim>\<open>Node.setChildren(children)\<close>: the array is filtered, \<^verbatim>\<open>this.children\<close> is emptied,
  and every entry is pushed and gets its back-reference, one after the other. The
  argument is \<open>None\<close> when it is \<^verbatim>\<open>null\<close> or \<^verbatim>\<open>undefined\<close>, which lodash filters to
  the empty array.
\<close>

definition push_child :: "addr \<Rightarrow> 'v heap \<Rightarrow> child \<Rightarrow> 'v heap" where
  "push_child this h c =
     set_parent this (h[this := (h ! this)\<lparr>children := children (h ! this) @ [c]\<rparr>]) c"

definition setChildren :: "'v heap \<Rightarrow> addr \<Rightarrow> child list option \<Rightarrow> 'v heap" where
  "setChildren h this children_arg =
     (let cs' = (case children_arg of Some cs \<Rightarrow> filter js_truthy cs | None \<Rightarrow> []);
          h0 = h[this := (h ! this)\<lparr>children := []\<rparr>]
      in foldl (push_child this) h0 cs')"

text \<open>\<^verbatim>\<open>new RootNode(children)\<close>: \<^verbatim>\<open>super(children, null)\<close>.\<close>

definition RootNode_new :: "'v heap \<Rightarrow> child list option \<Rightarrow> addr \<times> 'v heap" where
  "RootNode_new h children_arg =
     (let this = length h
      in (this, Node_constructor (h @ [blank PRoot]) this children_arg None))"

text \<open>
  \<^verbatim>\<open>new CommentNode(token, text, multiline = false)\<close>: \<^verbatim>\<open>super(null, token)\<close>, then
  \<^verbatim>\<open>this.text = multiline ? text : text.trim()\<close>. The flag is \<open>None\<close> when the caller
  leaves it out.
\<close>

definition CommentNode_new ::
    "'v heap \<Rightarrow> token option \<Rightarrow> string \<Rightarrow> bool option \<Rightarrow> addr \<times> 'v heap" where
  "CommentNode_new h token text multiline_arg =
     (let this = length h;
          multiline = (case multiline_arg of Some b \<Rightarrow> b | None \<Rightarrow> False);
          h1 = Node_constructor (h @ [blank PNode]) this None token
      in (this, h1[this := (h1 ! this)\<lparr>payload :=
                    PComment (if multiline then text else js_trim text) multiline\<rparr>]))"

text \<open>
  \<^verbatim>\<open>new ActionNode(token, name, params = [])\<close>. Both fields come from
  \<^verbatim>\<open>name.replace(/([!#\*\%]?)(.*)/, ...)\<close>: the expression matches at index 0, the first
  group takes one modifier character when there is one, the second group runs up to the
  first line terminator, and \<^verbatim>\<open>replace\<close> keeps what follows the match.
\<close>

definition is_modifier :: "char \<Rightarrow> bool" where
  "is_modifier c \<longleftrightarrow> c = CHR ''!'' \<or> c = CHR ''#'' \<or> c = CHR ''*'' \<or> c = CHR ''%''"

definition re_group1 :: "string \<Rightarrow> string" where
  "re_group1 name = (case name of [] \<Rightarrow> [] | c # cs \<Rightarrow> if is_modifier c then [c] else [])"

definition re_group2 :: "string \<Rightarrow> string" where
  "re_group2 name = takeWhile js_dot (drop (length (re_group1 name)) name)"

definition re_rest :: "string \<Rightarrow> string" where
  "re_rest name = dropWhile js_dot (drop (length (re_group1 name)) name)"

definition ActionNode_name :: "string \<Rightarrow> string" where
  "ActionNode_name name = re_group2 name @ re_rest name"

definition ActionNode_modifier :: "string \<Rightarrow> string" where
  "ActionNode_modifier name = re_group1 name @ re_rest name"

definition ActionNode_new ::
    "'v heap \<Rightarrow> token option \<Rightarrow> string \<Rightarrow> 'v list option \<Rightarrow> addr \<times> 'v heap" where
  "ActionNode_new h token name params_arg =
     (let this = length h;
          params = (case params_arg of Some ps \<Rightarrow> ps | None \<Rightarrow> []);
          h1 = Node_constructor (h @ [blank PNode]) this None token
      in (this, h1[this := (h1 ! this)\<lparr>payload :=
                    PAction (ActionNode_name name) (ActionNode_modifier name) params\<rparr>]))"


section \<open>The parser class\<close>

text \<open>
  Every error the class raises is a JavaScript \<^verbatim>\<open>Error\<close> with a message; the two errors
  of \<^verbatim>\<open>parse\<close> are told apart by their message and by the fields added to them: a lexer
  error carries its location, a parser error its last tokens, its location and the
  excerpt. A \<^verbatim>\<open>TypeError\<close> is what the language raises when a property of
  \<^verbatim>\<open>undefined\<close> is read or a value that is not a function is called, a
  \<^verbatim>\<open>RangeError\<close> when the length of an array is set to a value that is not an array
  length; their messages are not modelled.
\<close>

datatype scad_error =
    InvalidInvocation string
  | LexerError string Location
  | ParserError string "token list" Location string
  | TypeError
  | RangeError
  | FileError string

text \<open>
  The three caches of an instance are arrays (\<^verbatim>\<open>this.cache = []\<close>) used as dictionaries
  from the file name. Each is modelled by the map from a key to the value that the class
  has stored under it: a tree, a code or a list of tokens. A parse result is the address
  of the root node with the store of its nodes. An array is not a plain dictionary:
  \<^item> its property \<^verbatim>\<open>length\<close> is a number, so no map has a value under the key
    \<^verbatim>\<open>length\<close>; an assignment to it sets the length, which deletes the index
    properties from the new length on, or raises a \<^verbatim>\<open>RangeError\<close>;
  \<^item> the keys that are array indices (\<^verbatim>\<open>0\<close>, \<^verbatim>\<open>1\<close>, ... in canonical decimal form, below
    4294967295) are the properties that setting the length deletes;
  \<^item> an assignment of a string to \<^verbatim>\<open>__proto__\<close> is ignored; an object assigned to it
    becomes the prototype of the array and is read back as assigned;
  \<^item> a property inherited from the prototype (\<^verbatim>\<open>push\<close>, \<^verbatim>\<open>constructor\<close>, ...) is a
    function until the class assigns to the key: like a missing value, it is no tree, no
    code and no list of tokens.
\<close>

record 'v scad =
  cache :: "string \<rightharpoonup> (addr \<times> 'v heap)"
  codeCache :: "string \<rightharpoonup> string"
  tokenCache :: "string \<rightharpoonup> token list"

definition SCADParser_new :: "'v scad" where
  "SCADParser_new = \<lparr>cache = Map.empty, codeCache = Map.empty, tokenCache = Map.empty\<rparr>"

definition is_digit :: "char \<Rightarrow> bool" where
  "is_digit c \<longleftrightarrow> c \<in> set ''0123456789''"

definition digits_value :: "string \<Rightarrow> nat" where
  "digits_value k = foldl (\<lambda>n c. 10 * n + (of_char c - 48)) 0 k"

definition array_index :: "string \<Rightarrow> nat option" where
  "array_index k =
     (if k \<noteq> [] \<and> list_all is_digit k \<and> (k = ''0'' \<or> hd k \<noteq> CHR ''0'') \<and>
         digits_value k < 4294967295
      then Some (digits_value k) else None)"

text \<open>
  The map of an array after its length is set to \<open>n\<close>: the index properties from \<open>n\<close>
  on are deleted, and the key \<^verbatim>\<open>length\<close> holds the number, no value of the map.
\<close>

definition array_set_length :: "nat \<Rightarrow> (string \<rightharpoonup> 'a) \<Rightarrow> (string \<rightharpoonup> 'a)" where
  "array_set_length n m =
     (\<lambda>k. if k = ''length'' then None
          else (case array_index k of
                  Some i \<Rightarrow> if n \<le> i then None else m k
                | None \<Rightarrow> m k))"

text \<open>
  \<^verbatim>\<open>this.tokenCache[file] = []\<close>. Under the key \<^verbatim>\<open>length\<close> the assignment sets the
  length of \<^verbatim>\<open>tokenCache\<close> to the number that the empty array converts to, 0, and
  \<^verbatim>\<open>tokenCache[file]\<close> is that number afterwards, not an array.
\<close>

definition tokenCache_reset :: "(string \<rightharpoonup> token list) \<Rightarrow> string \<Rightarrow> (string \<rightharpoonup> token list)" where
  "tokenCache_reset tc file =
     (if file = ''length'' then array_set_length 0 tc else tc(file \<mapsto> []))"

text \<open>
  \<^verbatim>\<open>this.codeCache[file] = code\<close>. Under the key \<^verbatim>\<open>length\<close> the code is converted to
  a number: the conversion of a string to a number of the language is the parameter
  \<open>toLength\<close>, which gives the array length a string converts to and \<open>None\<close> when it
  converts to no array length.
\<close>

definition codeCache_set ::
    "(string \<Rightarrow> nat option) \<Rightarrow> (string \<rightharpoonup> string) \<Rightarrow> string \<Rightarrow> string \<Rightarrow>
     scad_error + (string \<rightharpoonup> string)" where
  "codeCache_set toLength cc file code =
     (if file = ''length''
      then (case toLength code of
              None \<Rightarrow> Inl RangeError
            | Some n \<Rightarrow> Inr (array_set_length n cc))
      else if file = ''__proto__'' then Inr (cc(file := None))
      else Inr (cc(file \<mapsto> code)))"

text \<open>
  \<^verbatim>\<open>this.cache[file] = root\<close>. Under the key \<^verbatim>\<open>length\<close> the root node is converted to
  a number through \<^verbatim>\<open>Node.toString\<close>, whose result starts with \<^verbatim>\<open><\<close>: it is no
  number. Once a root node is stored under \<^verbatim>\<open>__proto__\<close> it is the prototype of the
  array, which then inherits the accessor \<^verbatim>\<open>className\<close> of the node classes: that one
  has no setter, and the assignment to a key \<^verbatim>\<open>className\<close> that the array does not
  have yet throws in the strict code of the class.
\<close>

definition cache_set ::
    "(string \<rightharpoonup> 'a) \<Rightarrow> string \<Rightarrow> 'a \<Rightarrow> scad_error + (string \<rightharpoonup> 'a)" where
  "cache_set c file root =
     (if file = ''length'' then Inl RangeError
      else if file = ''className'' \<and> c ''className'' = None \<and> c ''__proto__'' \<noteq> None
      then Inl TypeError
      else Inr (c(file \<mapsto> root)))"

definition ignoredTokens :: "string list" where
  "ignoredTokens = [''whitespace'', ''eol'']"

text \<open>
  The lexer and the grammar are not part of the class. The lexer is the function from
  the code to the tokens that \<^verbatim>\<open>lexer.next()\<close> returns after \<^verbatim>\<open>lexer.reset(code)\<close>,
  up to the end of the input. The parser is a start state (\<^verbatim>\<open>new nearley.Parser\<close>), the
  function \<^verbatim>\<open>feed\<close> (\<open>None\<close> when it throws), and \<^verbatim>\<open>results[0]\<close> together with the
  store of the nodes that the grammar's actions built (\<open>None\<close> for a result that is not
  an array, as when there is no result at all).
\<close>

record ('p, 'v) nearley =
  p_start :: "'p"
  p_feed :: "'p \<Rightarrow> token \<Rightarrow> 'p option"
  p_results :: "'p \<Rightarrow> 'v heap \<times> child list option"

text \<open>
  The state of the loop of \<^verbatim>\<open>parse\<close>: the parser, the value of
  \<^verbatim>\<open>tokenCache[file]\<close> (the tokens captured, or \<open>None\<close> when it is not an array), and
  two logs: the tokens that \<^verbatim>\<open>lexer.next()\<close> has returned and the tokens that
  \<^verbatim>\<open>parser.feed\<close> has been called with.
\<close>

record 'p run =
  r_parser :: "'p"
  r_cache :: "token list option"
  r_lexed :: "token list"
  r_fed :: "token list"

definition run_start :: "('p, 'v) nearley \<Rightarrow> token list option \<Rightarrow> 'p run" where
  "run_start G cached = \<lparr>r_parser = p_start G, r_cache = cached, r_lexed = [], r_fed = []\<rparr>"

text \<open>How the loop ends: at the end of the input, or with what \<^verbatim>\<open>push\<close> or \<^verbatim>\<open>feed\<close> threw.\<close>

datatype loop_end = Finished | PushThrew | FeedThrew

text \<open>
  \<^verbatim>\<open>while (token = lexer.next())\<close>: an ignored token is skipped, any other token is
  captured and then fed. \<^verbatim>\<open>this.tokenCache[file].push(token)\<close> throws when
  \<^verbatim>\<open>tokenCache[file]\<close> is not an array.
\<close>

fun parse_loop :: "('p, 'v) nearley \<Rightarrow> 'p run \<Rightarrow> token list \<Rightarrow> 'p run \<times> loop_end" where
  "parse_loop G r [] = (r, Finished)"
| "parse_loop G r (t # ts) =
     (let r1 = r\<lparr>r_lexed := r_lexed r @ [t]\<rparr>
      in if tok_type t \<in> set ignoredTokens then parse_loop G r1 ts
         else
           (case r_cache r1 of
              None \<Rightarrow> (r1, PushThrew)
            | Some captured \<Rightarrow>
                (let r2 = r1\<lparr>r_cache := Some (captured @ [t]), r_fed := r_fed r1 @ [t]\<rparr>
                 in case p_feed G (r_parser r2) t of
                      None \<Rightarrow> (r2, FeedThrew)
                    | Some p' \<Rightarrow> parse_loop G (r2\<lparr>r_parser := p'\<rparr>) ts)))"

text \<open>\<^verbatim>\<open>pad(n, width, z)\<close> of \<^verbatim>\<open>getCodeExcerpt\<close>, with \<^verbatim>\<open>z = '0'\<close>.\<close>

definition pad :: "int \<Rightarrow> int \<Rightarrow> string" where
  "pad n width =
     (let s = js_toString n
      in if int (length s) \<ge> width then s
         else replicate (nat (width - int (length s) + 1) - 1) CHR ''0'' @ s)"

text \<open>\<^verbatim>\<open>drawMarker(indent)\<close> of \<^verbatim>\<open>getCodeExcerpt\<close>.\<close>

definition drawMarker :: "Location \<Rightarrow> int \<Rightarrow> string" where
  "drawMarker loc indent =
     times_join indent CHR '' '' @ times_join (loc_column loc + 1) CHR '' '' @
     ''^'' @ times_join (loc_size loc - 2) CHR ''-'' @ ''^''"

text \<open>
  \<^verbatim>\<open>getCodeExcerpt(file, location, lines = 3)\<close>. It raises a \<^verbatim>\<open>TypeError\<close> when
  \<^verbatim>\<open>codeCache[file]\<close> is not a string.
\<close>

definition excerpt_line :: "Location \<Rightarrow> int \<Rightarrow> int \<Rightarrow> string \<times> int \<Rightarrow> string" where
  "excerpt_line loc start fin = (\<lambda>(line, index).
     if index \<noteq> loc_line loc - 1
     then pad (index + start + 1) (int (length (js_toString fin))) @ '': '' @ line
     else pad (index + start + 1) (int (length (js_toString fin))) @ '': '' @ line @ [nl] @
          drawMarker loc (int (length (js_toString fin))))"

definition getCodeExcerpt :: "'v scad \<Rightarrow> string \<Rightarrow> Location \<Rightarrow> int \<Rightarrow> scad_error + string" where
  "getCodeExcerpt s file loc lines =
     (case codeCache s file of
        None \<Rightarrow> Inl TypeError
      | Some src \<Rightarrow>
          (let code = split_nl src;
               start0 = loc_line loc - (lines + 2);
               start = (if start0 < 0 then 0 else start0);
               fin0 = loc_line loc + (lines - 1);
               fin = (if fin0 \<ge> int (length code) then int (length code) - 1 else fin0);
               code' = js_slice code start (loc_line loc + (lines - 1))
           in Inr (js_join [nl]
                 (map (excerpt_line loc start fin)
                    (zip code' (map int [0 ..< length code']))))))"

text \<open>
  The \<^verbatim>\<open>catch\<close> block of \<^verbatim>\<open>parse\<close>: the error that replaces the one caught. A token
  prints as its value. When \<^verbatim>\<open>tokenCache[file]\<close> is not an array the key is
  \<^verbatim>\<open>length\<close>: no last token is found in the number, and \<^verbatim>\<open>getCodeExcerpt\<close> raises a
  \<^verbatim>\<open>TypeError\<close>, since \<^verbatim>\<open>codeCache[file]\<close> is a number too.
\<close>

definition lexer_message :: "token \<Rightarrow> Location \<Rightarrow> string \<Rightarrow> string" where
  "lexer_message lastToken loc excerpt =
     ''Lexer error:'' @ [nl] @ tok_value lastToken @ '' '' @ Location_toString loc @
     [nl] @ ''Excerpt:'' @ [nl, nl] @ excerpt"

definition parser_message :: "token option \<Rightarrow> Location \<Rightarrow> token list \<Rightarrow> string \<Rightarrow> string" where
  "parser_message lastToken loc lastTokens excerpt =
     ''Parser error: Unexpected token '' @ [squote] @
     (case lastToken of Some l \<Rightarrow> tok_value l | None \<Rightarrow> ''undefined'') @ [squote] @
     '' (Type: '' @ (case lastToken of Some l \<Rightarrow> tok_type l | None \<Rightarrow> ''undefined'') @
     '', '' @ Location_toString loc @ '')'' @ [nl] @
     ''Last tokens: ['' @ [dquote] @
     js_join ([dquote] @ '', '' @ [dquote]) (map tok_value lastTokens) @
     [dquote] @ '']'' @ [nl] @ ''Excerpt:'' @ [nl, nl] @ excerpt"

definition raise_lexer_error :: "'v scad \<Rightarrow> string \<Rightarrow> token \<Rightarrow> scad_error" where
  "raise_lexer_error s file lastToken =
     (let loc = Location_new (Some lastToken)
      in case getCodeExcerpt s file loc 3 of
           Inl e \<Rightarrow> e
         | Inr excerpt \<Rightarrow> LexerError (lexer_message lastToken loc excerpt) loc)"

definition raise_parser_error ::
    "'v scad \<Rightarrow> string \<Rightarrow> token list \<Rightarrow> token option \<Rightarrow> scad_error" where
  "raise_parser_error s file toks lastToken =
     (let loc = Location_new lastToken
      in case getCodeExcerpt s file loc 3 of
           Inl e \<Rightarrow> e
         | Inr excerpt \<Rightarrow>
             (let lastTokens = js_slice toks (int (length toks) - 3) (int (length toks))
              in ParserError (parser_message lastToken loc lastTokens excerpt)
                   lastTokens loc excerpt))"

definition parse_catch :: "'v scad \<Rightarrow> string \<Rightarrow> scad_error" where
  "parse_catch s file =
     (case tokenCache s file of
        None \<Rightarrow> TypeError
      | Some toks \<Rightarrow>
          (case (if toks = [] then None else Some (toks ! (length toks - 1))) of
             Some lastToken \<Rightarrow>
               if tok_type lastToken = ''LexerError''
               then raise_lexer_error s file lastToken
               else raise_parser_error s file toks (Some lastToken)
           | None \<Rightarrow> raise_parser_error s file toks None))"

text \<open>\<^verbatim>\<open>parse(code, file)\<close>: the result or the error raised, and the instance afterwards.\<close>

definition parse ::
    "(string \<Rightarrow> token list) \<Rightarrow> ('p, 'v) nearley \<Rightarrow> 'v scad \<Rightarrow> string \<Rightarrow> string \<Rightarrow>
     (scad_error + addr \<times> 'v heap) \<times> 'v scad" where
  "parse lexer G s code file =
     (let s0 = s\<lparr>tokenCache := tokenCache_reset (tokenCache s) file\<rparr>;
          (r, e) = parse_loop G (run_start G (tokenCache s0 file)) (lexer code);
          s1 = (case r_cache r of
                  Some captured \<Rightarrow> s0\<lparr>tokenCache := (tokenCache s0)(file \<mapsto> captured)\<rparr>
                | None \<Rightarrow> s0)
      in if e = Finished
         then (Inr (RootNode_new (fst (p_results G (r_parser r)))
                      (snd (p_results G (r_parser r)))), s1)
         else (Inl (parse_catch s1 file), s1))"

text \<open>
  An argument of \<^verbatim>\<open>parseAST(file, code = null)\<close>: a string, or one of the two values
  that stand for a missing argument. As a key of a cache it is turned into a string.
\<close>

datatype jsarg = JUndefined | JNull | JString string

fun isString :: "jsarg \<Rightarrow> bool" where
  "isString (JString s) = True"
| "isString a = False"

fun property_key :: "jsarg \<Rightarrow> string" where
  "property_key (JString s) = s"
| "property_key JUndefined = ''undefined''"
| "property_key JNull = ''null''"

text \<open>
  \<^verbatim>\<open>fs.readFileSync(file, 'utf8')\<close> over a file system given as a map from paths to
  contents.
\<close>

fun readFileSync :: "(string \<rightharpoonup> string) \<Rightarrow> jsarg \<Rightarrow> scad_error + string" where
  "readFileSync fs (JString f) =
     (case fs f of Some c \<Rightarrow> Inr c | None \<Rightarrow> Inl (FileError f))"
| "readFileSync fs a = Inl TypeError"

text \<open>
  The two statements that both branches of \<^verbatim>\<open>parseAST\<close> run:
  \<^verbatim>\<open>this.codeCache[file] = code; this.cache[file] = this.parse(code, file)\<close>.
\<close>

definition parse_and_cache ::
    "(string \<Rightarrow> token list) \<Rightarrow> ('p, 'v) nearley \<Rightarrow> (string \<Rightarrow> nat option) \<Rightarrow> 'v scad \<Rightarrow>
     string \<Rightarrow> string \<Rightarrow> (scad_error + addr \<times> 'v heap) \<times> 'v scad" where
  "parse_and_cache lexer G toLength s code key =
     (case codeCache_set toLength (codeCache s) key code of
        Inl e \<Rightarrow> (Inl e, s)
      | Inr cc \<Rightarrow>
          (case parse lexer G (s\<lparr>codeCache := cc\<rparr>) code key of
             (Inl e, s2) \<Rightarrow> (Inl e, s2)
           | (Inr root, s2) \<Rightarrow>
               (case cache_set (cache s2) key root of
                  Inl e \<Rightarrow> (Inl e, s2)
                | Inr c \<Rightarrow> (Inr root, s2\<lparr>cache := c\<rparr>))))"

definition parseAST ::
    "(string \<Rightarrow> token list) \<Rightarrow> ('p, 'v) nearley \<Rightarrow> (string \<rightharpoonup> string) \<Rightarrow>
     (string \<Rightarrow> nat option) \<Rightarrow> 'v scad \<Rightarrow> jsarg \<Rightarrow> jsarg \<Rightarrow>
     (scad_error + addr \<times> 'v heap) \<times> 'v scad" where
  "parseAST lexer G fs toLength s file code =
     (if \<not> isString file \<and> \<not> isString code
      then (Inl (InvalidInvocation ''You have to pass either code or file parameter!''), s)
      else
        (case code of
           JString (c # cs) \<Rightarrow> parse_and_cache lexer G toLength s (c # cs) (property_key file)
         | _ \<Rightarrow>
             (case readFileSync fs file of
                Inl e \<Rightarrow> (Inl e, s)
              | Inr code' \<Rightarrow> parse_and_cache lexer G toLength s code' (property_key file))))"

text \<open>
  \<^verbatim>\<open>getToken(column, line, file)\<close>: \<^verbatim>\<open>_.each\<close> runs over the cached tokens and stops
  when the callback returns \<^verbatim>\<open>false\<close>, which it does after setting \<^verbatim>\<open>out\<close>. lodash
  runs over nothing when the file has no cached tokens.
\<close>

fun getToken_each :: "int \<Rightarrow> int \<Rightarrow> token list \<Rightarrow> token option \<Rightarrow> token option" where
  "getToken_each column line [] out = out"
| "getToken_each column line (t # ts) out =
     (if line = tok_line t \<and> (column \<ge> tok_col t \<and> column < tok_col t + tok_size t)
      then Some t
      else getToken_each column line ts out)"

definition getToken :: "'v scad \<Rightarrow> int \<Rightarrow> int \<Rightarrow> string \<Rightarrow> token option" where
  "getToken s column line file =
     (case tokenCache s file of
        None \<Rightarrow> None
      | Some toks \<Rightarrow> getToken_each column line toks None)"


section \<open>A fragment of the grammar and the token streams of the tests\<close>

text \<open>
  Modelled from the spec: the grammar (\<^verbatim>\<open>./nearley/grammar\<close>) is not among the sources.
  This is the fragment of the statement productions of section 4.2 that the concrete
  runs below need: a program is a sequence of statements; a comment token alone is a
  statement and yields a \<^verbatim>\<open>CommentNode\<close> (multi-line for \<^verbatim>\<open>mlComment\<close>); a statement
  that starts with an identifier goes on with \<^verbatim>\<open>=\<close> (a variable) or \<^verbatim>\<open>:\<close> (a label);
  no statement starts with an unrecognized-input token. The fragment stops after the
  second token of a statement that starts with an identifier: what follows is not
  modelled, and no run below feeds it.
\<close>

datatype gphase = AtStatement | AfterIdentifier | Unmodelled

record 'v gstate =
  g_phase :: gphase
  g_heap :: "'v heap"
  g_statements :: "child list"

definition fragment_feed :: "'v gstate \<Rightarrow> token \<Rightarrow> 'v gstate option" where
  "fragment_feed p t =
     (case g_phase p of
        AtStatement \<Rightarrow>
          if tok_type t = ''comment'' \<or> tok_type t = ''mlComment''
          then (let (a, h') = CommentNode_new (g_heap p) (Some t) (tok_value t)
                                (if tok_type t = ''mlComment'' then Some True else None)
                in Some (p\<lparr>g_heap := h', g_statements := g_statements p @ [CRef a]\<rparr>))
          else if tok_type t = ''identifier'' then Some (p\<lparr>g_phase := AfterIdentifier\<rparr>)
          else None
      | AfterIdentifier \<Rightarrow>
          if tok_type t = ''assign'' \<or> tok_type t = ''seperator''
          then Some (p\<lparr>g_phase := Unmodelled\<rparr>)
          else None
      | Unmodelled \<Rightarrow> None)"

definition fragment_grammar :: "('v gstate, 'v) nearley" where
  "fragment_grammar =
     \<lparr>p_start = \<lparr>g_phase = AtStatement, g_heap = [], g_statements = []\<rparr>,
      p_feed = fragment_feed,
      p_results =
        (\<lambda>p. (g_heap p, if g_phase p = AtStatement then Some (g_statements p) else None))\<rparr>"

definition mk_token ::
    "string \<Rightarrow> string \<Rightarrow> int \<Rightarrow> int \<Rightarrow> int \<Rightarrow> int \<Rightarrow> int \<Rightarrow> token" where
  "mk_token ty v off sz lb ln c =
     \<lparr>tok_type = ty, tok_value = v, tok_offset = off, tok_size = sz, tok_lineBreaks = lb,
      tok_line = ln, tok_col = c\<rparr>"

text \<open>
  The token streams of three inputs of test.js under the token table of
  \<^verbatim>\<open>nearley/tokens\<close>, whose rules are tried in the order of the table at every offset:
  \<^verbatim>\<open>myVar module ;\<close> is an identifier, white space, an identifier (\<^verbatim>\<open>moduleDefinition\<close>
  needs a name and a parenthesis) and \<^verbatim>\<open>eos\<close> with its leading blank; no rule matches at
  \<^verbatim>\<open>&\<close>, so \<^verbatim>\<open>&%!;\<close> is one token of the error rule holding the rest of the input;
  the comment rule captures the text between \<^verbatim>\<open>//\<close> and the line feed.
\<close>

definition myVar_module_tokens :: "token list" where
  "myVar_module_tokens =
     [mk_token ''identifier'' ''myVar'' 0 5 0 1 1,
      mk_token ''whitespace'' '' '' 5 1 0 1 6,
      mk_token ''identifier'' ''module'' 6 6 0 1 7,
      mk_token ''eos'' '' ;'' 12 2 0 1 13]"

definition lexer_of_tests :: "string \<Rightarrow> token list" where
  "lexer_of_tests code =
     (if code = ''myVar module ;'' then myVar_module_tokens
      else if code = ''&%!;'' then [mk_token ''LexerError'' ''&%!;'' 0 4 0 1 1]
      else if code = ''// Single line comment'' @ [nl]
      then [mk_token ''comment'' '' Single line comment'' 0 23 1 1 1]
      else [])"


text \<open>
  The conversion to an array length on the texts of the runs below: none of them is a
  numeric literal, so none converts to a number.
\<close>

definition length_of_tests :: "string \<Rightarrow> nat option" where
  "length_of_tests code = None"


text \<open>
  A text of eight lines whose sixth line is a closing parenthesis, which starts no
  statement: the token at which the parse fails is at line 6, column 1, offset 25.
\<close>

definition eight_lines :: string where
  "eight_lines =
     ''a=1;'' @ [nl] @ ''a=2;'' @ [nl] @ ''a=3;'' @ [nl] @ ''a=4;'' @ [nl] @ ''a=5;'' @ [nl] @
     '')'' @ [nl] @ ''a=7;'' @ [nl] @ ''a=8;''"

section \<open>Predicates of the properties\<close>

text \<open>
  The nodes of the tree of a node: the node itself and the nodes held in the
  \<^verbatim>\<open>children\<close> of a node of the tree.
\<close>

inductive reachable :: "'v heap \<Rightarrow> addr \<Rightarrow> addr \<Rightarrow> bool" for h :: "'v heap" and r :: addr where
  root: "reachable h r r"
| child: "reachable h r n \<Longrightarrow> CRef a \<in> set (children (h ! n)) \<Longrightarrow> reachable h r a"

text \<open>
  A node is the root of a tree: it has no parent, and every node held in the
  \<^verbatim>\<open>children\<close> of a node of its tree is a node of the store whose \<^verbatim>\<open>parent\<close> is the
  node that holds it. So every node of the tree but the root has exactly one parent, the
  one node of the tree that holds it.
\<close>

definition tree_at :: "'v heap \<Rightarrow> addr \<Rightarrow> bool" where
  "tree_at h r \<longleftrightarrow>
     r < length h \<and> parent (h ! r) = None \<and>
     (\<forall>n a. reachable h r n \<longrightarrow> CRef a \<in> set (children (h ! n)) \<longrightarrow>
        a < length h \<and> parent (h ! a) = Some n)"

text \<open>A prospective child that is a node is the root of a tree of its own.\<close>

definition free_root :: "'v heap \<Rightarrow> child \<Rightarrow> bool" where
  "free_root h c = (case c of CRef a \<Rightarrow> tree_at h a | _ \<Rightarrow> True)"


text \<open>
  The values of the \<^verbatim>\<open>actionCall\<close> tokens: the capture group
  \<^verbatim>\<open>[!#\*\%]?[A-Za-z][A-Za-z0-9_]*\<close> of the rule.
\<close>

definition is_alpha :: "char \<Rightarrow> bool" where
  "is_alpha c \<longleftrightarrow> c \<in> set ''ABCDEFGHIJKLMNOPQRSTUVWXYZabcdefghijklmnopqrstuvwxyz''"

definition is_word :: "char \<Rightarrow> bool" where
  "is_word c \<longleftrightarrow> is_alpha c \<or> c \<in> set ''0123456789_''"

fun is_action_identifier :: "string \<Rightarrow> bool" where
  "is_action_identifier [] = False"
| "is_action_identifier (c # cs) = (is_alpha c \<and> list_all is_word cs)"

fun actionCall_value :: "string \<Rightarrow> bool" where
  "actionCall_value [] = False"
| "actionCall_value (c # cs) =
     (if is_modifier c then is_action_identifier cs else is_action_identifier (c # cs))"

text \<open>A token covers a position: the condition of the claim about \<^verbatim>\<open>getToken\<close>.\<close>

definition covers :: "int \<Rightarrow> int \<Rightarrow> token \<Rightarrow> bool" where
  "covers column line t \<longleftrightarrow>
     line = tok_line t \<and> tok_col t \<le> column \<and> column < tok_col t + tok_size t"

text \<open>The tokens the parser is meant to see: every kind but white space and end of line.\<close>

definition grammar_token :: "token \<Rightarrow> bool" where
  "grammar_token t \<longleftrightarrow> tok_type t \<noteq> ''whitespace'' \<and> tok_type t \<noteq> ''eol''"


section \<open>Attaching children\<close>

lemma nth_upd: "(xs[i := x]) ! j = (if i = j \<and> i < length xs then x else xs ! j)"
  by (cases "i < length xs") (auto simp: nth_list_update list_update_beyond)

lemma length_set_parent [simp]: "length (set_parent this h c) = length h"
  by (cases c) simp_all

lemma length_foldl_set_parent [simp]: "length (foldl (set_parent this) h cs) = length h"
  by (induction cs arbitrary: h) simp_all

lemma children_set_parent [simp]: "children (set_parent this h c ! n) = children (h ! n)"
  by (cases c) (simp_all add: nth_upd)

lemma children_foldl_set_parent [simp]:
  "children (foldl (set_parent this) h cs ! n) = children (h ! n)"
  by (induction cs arbitrary: h) simp_all

lemma parent_set_parent:
  "parent (set_parent this h c ! n) = (if c = CRef n \<and> n < length h then Some this else parent (h ! n))"
  by (cases c) (auto simp: nth_upd)

lemma parent_foldl_set_parent:
  "parent (foldl (set_parent this) h cs ! n) =
     (if CRef n \<in> set cs \<and> n < length h then Some this else parent (h ! n))"
  by (induction cs arbitrary: h) (auto simp: parent_set_parent)

lemma length_Node_constructor [simp]: "length (Node_constructor h this cs tok) = length h"
  by (simp add: Node_constructor_def Let_def split: option.splits)

lemma children_Node_constructor:
  "this < length h \<Longrightarrow>
   children (Node_constructor h this arg tok ! n) =
     (if n = this then (case arg of Some cs \<Rightarrow> filter js_truthy cs | None \<Rightarrow> [])
      else children (h ! n))"
  by (simp add: Node_constructor_def Let_def nth_upd split: option.splits)

lemma parent_Node_constructor:
  "parent (Node_constructor h this arg tok ! n) =
     (case arg of
        Some cs \<Rightarrow> if CRef n \<in> set cs \<and> n < length h then Some this else parent (h ! n)
      | None \<Rightarrow> parent (h ! n))"
  by (auto simp: Node_constructor_def Let_def nth_upd parent_foldl_set_parent
      split: option.splits)

lemma length_push_child [simp]: "length (push_child this h c) = length h"
  by (simp add: push_child_def)

lemma length_foldl_push_child [simp]: "length (foldl (push_child this) h cs) = length h"
  by (induction cs arbitrary: h) simp_all

lemma children_push_child:
  "children (push_child this h c ! n) =
     (if n = this \<and> this < length h then children (h ! n) @ [c] else children (h ! n))"
  by (simp add: push_child_def nth_upd)

lemma children_foldl_push_child:
  "children (foldl (push_child this) h cs ! n) =
     (if n = this \<and> this < length h then children (h ! n) @ cs else children (h ! n))"
  by (induction cs arbitrary: h) (simp_all add: children_push_child)



lemma length_setChildren [simp]: "length (setChildren h this arg) = length h"
  by (simp add: setChildren_def Let_def)

lemma children_setChildren:
  "this < length h \<Longrightarrow>
   children (setChildren h this arg ! n) =
     (if n = this then (case arg of Some cs \<Rightarrow> filter js_truthy cs | None \<Rightarrow> [])
      else children (h ! n))"
  by (simp add: setChildren_def Let_def children_foldl_push_child nth_upd
      split: option.splits)



lemma filter_truthy_conv: "filter js_truthy cs = filter (\<lambda>c. c \<noteq> CNull \<and> c \<noteq> CUndefined) cs"
proof -
  have "js_truthy = (\<lambda>c. c \<noteq> CNull \<and> c \<noteq> CUndefined)"
  proof
    fix c show "js_truthy c = (c \<noteq> CNull \<and> c \<noteq> CUndefined)"
      by (cases c) simp_all
  qed
  then show ?thesis by simp
qed

lemma CRef_in_filter [simp]: "CRef a \<in> set (filter js_truthy cs) \<longleftrightarrow> CRef a \<in> set cs"
  by simp

lemma fst_Node_new [simp]: "fst (Node_new h arg tok) = length h"
  by (simp add: Node_new_def Let_def)

lemma snd_Node_new: "snd (Node_new h arg tok) = Node_constructor (h @ [blank PNode]) (length h) arg tok"
  by (simp add: Node_new_def Let_def)


lemma reachable_valid:
  assumes "tree_at h r" and "reachable h r n"
  shows "n < length h"
  using assms(2,1) by (induction rule: reachable.induct) (auto simp: tree_at_def)

lemma tree_at_child:
  assumes "tree_at h r" and "reachable h r n" and "CRef a \<in> set (children (h ! n))"
  shows "a < length h" and "parent (h ! a) = Some n"
  using assms by (auto simp: tree_at_def)

lemma tree_at_leaf:
  assumes "r < length h" and "parent (h ! r) = None" and "children (h ! r) = []"
  shows "tree_at h r"
proof -
  have "n = r" if "reachable h r n" for n
    using that assms(3) by (induction rule: reachable.induct) auto
  then have "CRef a \<notin> set (children (h ! n))" if "reachable h r n" for n a
    using that assms(3) by fastforce
  with assms(1,2) show ?thesis
    unfolding tree_at_def by blast
qed

lemma tree_one_parent:
  assumes "tree_at h r" and "reachable h r n" and "reachable h r m"
    and "CRef a \<in> set (children (h ! n))" and "CRef a \<in> set (children (h ! m))"
  shows "n = m"
  using tree_at_child(2) [OF assms(1,2,4)] tree_at_child(2) [OF assms(1,3,5)] by simp

lemma tree_root_not_child:
  assumes "tree_at h r" and "reachable h r n"
  shows "CRef r \<notin> set (children (h ! n))"
  using tree_at_child(2) [OF assms] assms(1) by (auto simp: tree_at_def)

lemma free_root_CRef: "list_all (free_root h) cs \<Longrightarrow> CRef a \<in> set cs \<Longrightarrow> tree_at h a"
  by (auto simp: list_all_iff free_root_def)

lemma tree_at_Node_constructor:
  assumes roots: "list_all (free_root h) cs"
  shows "tree_at (Node_constructor (h @ [blank p]) (length h) (Some cs) tok) (length h)"
proof -
  let ?n = "length h"
  let ?h' = "Node_constructor (h @ [blank p]) ?n (Some cs) tok"
  have t: "tree_at h a" if "CRef a \<in> set cs" for a
    using roots that by (rule free_root_CRef)
  have valid: "a < length h" and orphan: "parent (h ! a) = None" if "CRef a \<in> set cs" for a
    using t [OF that] by (simp_all add: tree_at_def)
  have ch: "children (?h' ! x) = children (h ! x)" if "x < length h" for x
    using that by (simp add: children_Node_constructor nth_append)
  have chn: "children (?h' ! ?n) = filter js_truthy cs"
    by (simp add: children_Node_constructor)
  have pa: "parent (?h' ! x) = (if CRef x \<in> set cs then Some ?n else parent (h ! x))"
    if "x < length h" for x
    using that by (simp add: parent_Node_constructor nth_append)
  have reach: "x = ?n \<or> (\<exists>c. CRef c \<in> set cs \<and> reachable h c x)" if "reachable ?h' ?n x" for x
    using that
  proof (induction rule: reachable.induct)
    case root
    then show ?case by simp
  next
    case (child m a)
    from child.IH show ?case
    proof
      assume "m = ?n"
      with child.hyps(2) chn have "CRef a \<in> set cs" by simp
      then show ?thesis by (blast intro: reachable.root)
    next
      assume "\<exists>c. CRef c \<in> set cs \<and> reachable h c m"
      then obtain c where c: "CRef c \<in> set cs" "reachable h c m" by blast
      then have "m < length h" by (blast intro: reachable_valid t)
      with child.hyps(2) have "CRef a \<in> set (children (h ! m))" by (simp add: ch)
      with c show ?thesis by (blast intro: reachable.child)
    qed
  qed
  have "CRef ?n \<notin> set cs"
    using valid by blast
  then have root: "parent (?h' ! ?n) = None"
    by (simp add: parent_Node_constructor blank_def)
  have step: "a < length ?h' \<and> parent (?h' ! a) = Some m"
    if m: "reachable ?h' ?n m" and a: "CRef a \<in> set (children (?h' ! m))" for m a
    using reach [OF m]
  proof
    assume "m = ?n"
    with a chn have "CRef a \<in> set cs" by simp
    with \<open>m = ?n\<close> valid [of a] show ?thesis by (simp add: pa)
  next
    assume "\<exists>c. CRef c \<in> set cs \<and> reachable h c m"
    then obtain c where c: "CRef c \<in> set cs" "reachable h c m" by blast
    then have lt: "m < length h" by (blast intro: reachable_valid t)
    with a have a': "CRef a \<in> set (children (h ! m))" by (simp add: ch)
    note tc = tree_at_child [OF t [OF c(1)] c(2) a']
    from tc(2) orphan [of a] have "CRef a \<notin> set cs" by auto
    with tc show ?thesis by (simp add: pa)
  qed
  show ?thesis
    unfolding tree_at_def using root step by simp
qed






text \<open>
  Claim C10. The entries \<^verbatim>\<open>null\<close> and \<^verbatim>\<open>undefined\<close> of the array given to the
  constructor or to \<^verbatim>\<open>setChildren\<close> are dropped before the children are attached:
  the stored list holds neither, and its length is the number of the other entries.
\<close>

theorem children_falsy_removed:
  assumes "this < length h"
  shows "(let n = fst (Node_new h (Some cs) tok); h' = snd (Node_new h (Some cs) tok)
          in children (h' ! n) = filter js_truthy cs \<and>
             CNull \<notin> set (children (h' ! n)) \<and> CUndefined \<notin> set (children (h' ! n)) \<and>
             length (children (h' ! n)) =
               length (filter (\<lambda>c. c \<noteq> CNull \<and> c \<noteq> CUndefined) cs)) \<and>
         (let h' = setChildren h this (Some cs)
          in children (h' ! this) = filter js_truthy cs \<and>
             CNull \<notin> set (children (h' ! this)) \<and> CUndefined \<notin> set (children (h' ! this)) \<and>
             length (children (h' ! this)) =
               length (filter (\<lambda>c. c \<noteq> CNull \<and> c \<noteq> CUndefined) cs)) \<and>
         children (snd (Node_new h None tok) ! fst (Node_new h None tok)) = [] \<and>
         children (setChildren h this None ! this) = []"
proof -
  have c1: "children (snd (Node_new h (Some cs) tok) ! length h) = filter js_truthy cs"
    by (simp add: snd_Node_new children_Node_constructor)
  have c2: "children (setChildren h this (Some cs) ! this) = filter js_truthy cs"
    using assms by (simp add: children_setChildren)
  have c3: "children (snd (Node_new h None tok) ! length h) = []"
    by (simp add: snd_Node_new children_Node_constructor)
  have c4: "children (setChildren h this None ! this) = []"
    using assms by (simp add: children_setChildren)
  have f: "CNull \<notin> set (filter js_truthy cs)" "CUndefined \<notin> set (filter js_truthy cs)"
    by simp_all
  have l: "length (filter js_truthy cs) = length (filter (\<lambda>c. c \<noteq> CNull \<and> c \<noteq> CUndefined) cs)"
    by (simp only: filter_truthy_conv)
  show ?thesis
    unfolding Let_def fst_Node_new c1 c2 c3 c4 using f l by simp
qed

theorem children_falsy_removed_witness:
  "(0::nat) < length [blank PNode, blank PNode :: unit node] \<and>
   children (snd (Node_new [blank PNode, blank PNode :: unit node]
                    (Some [CNull, CRef 1, CUndefined]) None) ! 2) = [CRef 1] \<and>
   children (setChildren [blank PNode, blank PNode :: unit node] 0
                    (Some [CNull, CRef 1, CUndefined]) ! 0) = [CRef 1]"
proof -
  have h: "(0::nat) < length [blank PNode, blank PNode :: unit node]"
    by simp
  show ?thesis
    using children_falsy_removed [OF h, of "[CNull, CRef 1, CUndefined]" None]
    by (simp add: Let_def numeral_2_eq_2)
qed


section \<open>Constructors of the subclasses\<close>

lemma payload_subclass_update:
  "this < length h1 \<Longrightarrow> payload (h1[this := (h1 ! this)\<lparr>payload := p\<rparr>] ! this) = p"
  by simp

lemma js_trim_decompose:
  "\<exists>pre post. s = pre @ js_trim s @ post \<and> list_all js_whitespace pre \<and>
     list_all js_whitespace post"
proof -
  let ?a = "dropWhile js_whitespace s"
  let ?post = "rev (takeWhile js_whitespace (rev ?a))"
  have "rev (takeWhile js_whitespace (rev ?a) @ dropWhile js_whitespace (rev ?a)) = ?a"
    by (simp only: takeWhile_dropWhile_id rev_rev_ident)
  then have a: "?a = js_trim s @ ?post"
    by (simp only: rev_append js_trim_def)
  have "s = takeWhile js_whitespace s @ ?a"
    by simp
  with a have "s = takeWhile js_whitespace s @ js_trim s @ ?post"
    by simp
  moreover have "list_all js_whitespace (takeWhile js_whitespace s)"
    by (auto simp: list_all_iff dest: set_takeWhileD)
  moreover have "list_all js_whitespace ?post"
    by (auto simp: list_all_iff dest: set_takeWhileD)
  ultimately show ?thesis by blast
qed

lemma js_trim_ends:
  assumes "js_trim s \<noteq> []"
  shows "\<not> js_whitespace (hd (js_trim s)) \<and> \<not> js_whitespace (last (js_trim s))"
proof -
  let ?a = "dropWhile js_whitespace s"
  let ?b = "dropWhile js_whitespace (rev ?a)"
  from assms have b: "?b \<noteq> []"
    by (simp add: js_trim_def)
  then have "rev ?a \<noteq> []"
    by (metis dropWhile.simps(1))
  then have a: "?a \<noteq> []"
    by simp
  have "last (js_trim s) = hd ?b"
    using b by (simp add: js_trim_def last_rev)
  moreover have "\<not> js_whitespace (hd ?b)"
    using b by (rule hd_dropWhile)
  moreover have "hd (js_trim s) = last ?b"
    using b by (simp add: js_trim_def hd_rev)
  moreover have "last ?b = last (rev ?a)"
  proof -
    from b obtain x where "x \<in> set (rev ?a)" "\<not> js_whitespace x"
      by (metis dropWhile_eq_Nil_conv)
    then show ?thesis by (rule dropWhile_last)
  qed
  moreover have "last (rev ?a) = hd ?a"
    using a by (simp add: last_rev)
  moreover have "\<not> js_whitespace (hd ?a)"
    using a by (rule hd_dropWhile)
  ultimately show ?thesis by simp
qed

lemma fst_CommentNode_new [simp]: "fst (CommentNode_new h tok str ml) = length h"
  by (simp add: CommentNode_new_def Let_def)

lemma payload_CommentNode_new:
  "payload (snd (CommentNode_new h tok str ml) ! length h) =
     PComment (if (case ml of Some b \<Rightarrow> b | None \<Rightarrow> False) then str else js_trim str)
       (case ml of Some b \<Rightarrow> b | None \<Rightarrow> False)"
  by (simp add: CommentNode_new_def Let_def)

text \<open>
  Claim C6. A comment node built without the multi-line flag (or with the flag false)
  stores the trimmed text and \<^verbatim>\<open>multiline = false\<close>; built with the flag true it stores
  the text as given and \<^verbatim>\<open>multiline = true\<close>. The trimmed text is the given text
  without the white space at its two ends.
\<close>

theorem CommentNode_text:
  "(let n = fst (CommentNode_new h tok str ml); h' = snd (CommentNode_new h tok str ml)
    in (ml = Some True \<longrightarrow> payload (h' ! n) = PComment str True) \<and>
       (ml \<noteq> Some True \<longrightarrow> payload (h' ! n) = PComment (js_trim str) False)) \<and>
   (\<exists>pre post. str = pre @ js_trim str @ post \<and> list_all js_whitespace pre \<and>
      list_all js_whitespace post) \<and>
   (js_trim str = [] \<or>
      \<not> js_whitespace (hd (js_trim str)) \<and> \<not> js_whitespace (last (js_trim str)))"
proof -
  have "ml = Some True \<or> ml = Some False \<or> ml = None"
    by (cases ml) auto
  then have pl: "(ml = Some True \<longrightarrow>
        payload (snd (CommentNode_new h tok str ml) ! length h) = PComment str True) \<and>
      (ml \<noteq> Some True \<longrightarrow>
        payload (snd (CommentNode_new h tok str ml) ! length h) = PComment (js_trim str) False)"
    by (auto simp: payload_CommentNode_new)
  show ?thesis
    using pl js_trim_decompose [of str] js_trim_ends [of str]
    unfolding Let_def fst_CommentNode_new by blast
qed

theorem CommentNode_text_witness:
  "payload (snd (CommentNode_new ([] :: unit heap) None '' Single line comment'' None) ! 0) =
     PComment ''Single line comment'' False \<and>
   payload (snd (CommentNode_new ([] :: unit heap) None '' Multi '' (Some True)) ! 0) =
     PComment '' Multi '' True"
  using CommentNode_text [of "[] :: unit heap" None "'' Single line comment''" None]
    CommentNode_text [of "[] :: unit heap" None "'' Multi ''" "Some True"]
  by (simp add: Let_def js_trim_def js_whitespace_def)

lemma is_alpha_dot: "is_alpha c \<Longrightarrow> js_dot c"
  by (auto simp: is_alpha_def js_dot_def)

lemma is_word_dot: "is_word c \<Longrightarrow> js_dot c"
  by (auto simp: is_word_def js_dot_def dest: is_alpha_dot)

lemma is_alpha_not_modifier: "is_alpha c \<Longrightarrow> \<not> is_modifier c"
  by (auto simp: is_alpha_def is_modifier_def)

lemma is_action_identifier_dot: "is_action_identifier cs \<Longrightarrow> list_all js_dot cs"
  by (cases cs) (auto simp: list_all_iff is_alpha_dot is_word_dot)

lemma re_no_terminator:
  assumes "list_all js_dot (drop (length (re_group1 name)) name)"
  shows "re_rest name = []" and "re_group2 name = drop (length (re_group1 name)) name"
  using assms by (simp_all add: re_rest_def re_group2_def list_all_iff)

lemma actionCall_value_groups:
  assumes "actionCall_value str"
  shows "re_group1 str = (if is_modifier (hd str) then [hd str] else [])"
    and "list_all js_dot (drop (length (re_group1 str)) str)"
proof -
  from assms obtain c cs where t: "str = c # cs"
    by (cases str) auto
  show "re_group1 str = (if is_modifier (hd str) then [hd str] else [])"
    by (simp add: t re_group1_def)
  show "list_all js_dot (drop (length (re_group1 str)) str)"
  proof (cases "is_modifier c")
    case True
    with assms t have "is_action_identifier cs" by simp
    then have "list_all js_dot cs" by (rule is_action_identifier_dot)
    with True show ?thesis by (simp add: t re_group1_def)
  next
    case False
    with assms t have "is_action_identifier (c # cs)" by simp
    then have "list_all js_dot (c # cs)" by (rule is_action_identifier_dot)
    with False show ?thesis by (simp add: t re_group1_def)
  qed
qed

lemma fst_ActionNode_new [simp]: "fst (ActionNode_new h tok name ps) = length h"
  by (simp add: ActionNode_new_def Let_def)

lemma payload_ActionNode_new:
  "payload (snd (ActionNode_new h tok name ps) ! length h) =
     PAction (ActionNode_name name) (ActionNode_modifier name)
       (case ps of Some p \<Rightarrow> p | None \<Rightarrow> [])"
  by (simp add: ActionNode_new_def Let_def)

text \<open>
  Claim C5. For the value of an \<^verbatim>\<open>actionCall\<close> token, the modifier of the action node
  is the first character when that is one of \<^verbatim>\<open>! # * %\<close> and the empty string
  otherwise, the name is the value without the modifier, and modifier and name together
  give the value back.
\<close>

theorem ActionNode_modifier_split:
  assumes "actionCall_value str"
  shows "(let n = fst (ActionNode_new h tok str ps); h' = snd (ActionNode_new h tok str ps);
              m = (if is_modifier (hd str) then [hd str] else [])
          in payload (h' ! n) = PAction (drop (length m) str) m
                                  (case ps of Some p \<Rightarrow> p | None \<Rightarrow> [])) \<and>
         ActionNode_modifier str = (if is_modifier (hd str) then [hd str] else []) \<and>
         ActionNode_name str = drop (length (ActionNode_modifier str)) str \<and>
         ActionNode_modifier str @ ActionNode_name str = str \<and>
         ActionNode_modifier str \<in> set ['''', ''!'', ''#'', ''*'', ''%'']"
proof -
  note g = actionCall_value_groups [OF assms]
  note r = re_no_terminator [OF g(2)]
  have m: "ActionNode_modifier str = (if is_modifier (hd str) then [hd str] else [])"
    by (simp add: ActionNode_modifier_def r(1) g(1))
  have n: "ActionNode_name str = drop (length (ActionNode_modifier str)) str"
    by (simp add: ActionNode_name_def ActionNode_modifier_def r)
  have c: "ActionNode_modifier str @ ActionNode_name str = str"
  proof -
    have "take (length (ActionNode_modifier str)) str = ActionNode_modifier str"
      unfolding m using assms by (cases str) simp_all
    then show ?thesis
      unfolding n by (metis append_take_drop_id)
  qed
  have s: "ActionNode_modifier str \<in> set ['''', ''!'', ''#'', ''*'', ''%'']"
    unfolding m by (auto simp: is_modifier_def)
  have p: "payload (snd (ActionNode_new h tok str ps) ! length h) =
      PAction (drop (length (ActionNode_modifier str)) str) (ActionNode_modifier str)
        (case ps of Some p \<Rightarrow> p | None \<Rightarrow> [])"
    unfolding payload_ActionNode_new using n by simp
  show ?thesis
    using m n c s p unfolding Let_def fst_ActionNode_new by simp
qed

theorem ActionNode_modifier_split_witness:
  "actionCall_value ''#cube'' \<and>
   payload (snd (ActionNode_new ([] :: unit heap) None ''#cube'' None) ! 0) =
     PAction ''cube'' ''#'' [] \<and>
   ActionNode_modifier ''sphere'' = '''' \<and> ActionNode_name ''sphere'' = ''sphere''"
proof -
  have h1: "actionCall_value ''#cube''"
    by (simp add: is_modifier_def is_alpha_def is_word_def)
  have h2: "actionCall_value ''sphere''"
    by (simp add: is_modifier_def is_alpha_def is_word_def)
  show ?thesis
    using h1 ActionNode_modifier_split [OF h1, of "[] :: unit heap" None None]
      ActionNode_modifier_split [OF h2, of "[] :: unit heap" None None]
    by (simp add: Let_def is_modifier_def)
qed


section \<open>The entry point and the token lookup\<close>

text \<open>
  Claim C9. Called with neither a string file nor a string code, \<^verbatim>\<open>parseAST\<close> raises
  the error with the message \<^verbatim>\<open>You have to pass either code or file parameter!\<close> and
  leaves the instance as it was: nothing is parsed and no cache is written.
\<close>

theorem parseAST_invalid_invocation:
  assumes "\<not> isString file" and "\<not> isString code"
  shows "parseAST lexer G fs toLength s file code =
           (Inl (InvalidInvocation ''You have to pass either code or file parameter!''), s)"
  using assms by (simp add: parseAST_def)

theorem parseAST_invalid_invocation_witness:
  "\<not> isString JUndefined \<and> \<not> isString JNull \<and>
   parseAST lexer_of_tests (fragment_grammar :: (unit gstate, unit) nearley) Map.empty
     length_of_tests SCADParser_new JUndefined JNull =
     (Inl (InvalidInvocation ''You have to pass either code or file parameter!''),
      SCADParser_new)"
proof -
  have h1: "\<not> isString JUndefined" and h2: "\<not> isString JNull"
    by simp_all
  show ?thesis
    using parseAST_invalid_invocation [OF h1 h2] by simp
qed

lemma getToken_each_find:
  "getToken_each column line ts out =
     (case List.find (covers column line) ts of Some t \<Rightarrow> Some t | None \<Rightarrow> out)"
  by (induction ts) (auto simp: covers_def)

text \<open>
  Claim C8. \<^verbatim>\<open>getToken\<close> returns the first token of the file's cached list that is on
  the line and covers the column, and \<^verbatim>\<open>null\<close> when the list has no such token (or
  the file has no list).
\<close>

theorem getToken_first_cover:
  "(getToken s column line file = Some t \<longleftrightarrow>
      (\<exists>toks i. tokenCache s file = Some toks \<and> i < length toks \<and> toks ! i = t \<and>
         covers column line t \<and> (\<forall>j<i. \<not> covers column line (toks ! j)))) \<and>
   (getToken s column line file = None \<longleftrightarrow>
      (\<forall>toks. tokenCache s file = Some toks \<longrightarrow>
         (\<forall>u \<in> set toks. \<not> covers column line u)))"
proof (cases "tokenCache s file")
  case None
  then show ?thesis by (simp add: getToken_def)
next
  case (Some toks)
  have g: "getToken s column line file = List.find (covers column line) toks"
    using Some by (simp add: getToken_def getToken_each_find split: option.splits)
  have a: "List.find (covers column line) toks = Some t \<longleftrightarrow>
      (\<exists>i. i < length toks \<and> toks ! i = t \<and> covers column line t \<and>
         (\<forall>j<i. \<not> covers column line (toks ! j)))"
    unfolding find_Some_iff by auto
  have b: "List.find (covers column line) toks = None \<longleftrightarrow>
      (\<forall>u \<in> set toks. \<not> covers column line u)"
    unfolding find_None_iff by auto
  show ?thesis
    unfolding g a b using Some by simp
qed

theorem getToken_first_cover_witness:
  "getToken ((SCADParser_new :: unit scad)\<lparr>tokenCache := [''f'' \<mapsto> filter grammar_token myVar_module_tokens]\<rparr>)
     8 1 ''f'' = Some (mk_token ''identifier'' ''module'' 6 6 0 1 7) \<and>
   getToken ((SCADParser_new :: unit scad)\<lparr>tokenCache := [''f'' \<mapsto> filter grammar_token myVar_module_tokens]\<rparr>)
     6 1 ''f'' = None"
  using getToken_first_cover [of "(SCADParser_new :: unit scad)\<lparr>tokenCache := [''f'' \<mapsto> filter grammar_token myVar_module_tokens]\<rparr>"
      8 1 "''f''" "mk_token ''identifier'' ''module'' 6 6 0 1 7"]
  by (simp add: getToken_def SCADParser_new_def myVar_module_tokens_def mk_token_def
      grammar_token_def)

section \<open>The loop of parse\<close>

lemma ignored_iff: "tok_type t \<in> set ignoredTokens \<longleftrightarrow> \<not> grammar_token t"
  by (auto simp: ignoredTokens_def grammar_token_def)

lemma parse_loop_logs:
  "parse_loop G r ts = (r', e) \<Longrightarrow>
   \<exists>consumed rest. ts = consumed @ rest \<and> (e = Finished \<longrightarrow> rest = []) \<and>
     r_lexed r' = r_lexed r @ consumed \<and>
     (case r_cache r of
        Some captured \<Rightarrow>
          e \<noteq> PushThrew \<and> r_fed r' = r_fed r @ filter grammar_token consumed \<and>
          r_cache r' = Some (captured @ filter grammar_token consumed)
      | None \<Rightarrow>
          r_fed r' = r_fed r \<and> r_cache r' = None \<and>
          filter grammar_token consumed = (if e = PushThrew then [last consumed] else []) \<and>
          (e = PushThrew \<longrightarrow> consumed \<noteq> []))"
proof (induction ts arbitrary: r)
  case Nil
  then show ?case by (auto split: option.splits)
next
  case (Cons t ts)
  let ?r1 = "r\<lparr>r_lexed := r_lexed r @ [t]\<rparr>"
  show ?case
  proof (cases "grammar_token t")
    case False
    with Cons.prems have "parse_loop G ?r1 ts = (r', e)"
      by (simp add: ignored_iff Let_def)
    from Cons.IH [OF this] obtain consumed rest where c:
      "ts = consumed @ rest" "e = Finished \<longrightarrow> rest = []"
      "r_lexed r' = r_lexed ?r1 @ consumed"
      "case r_cache ?r1 of
         Some captured \<Rightarrow>
           e \<noteq> PushThrew \<and> r_fed r' = r_fed ?r1 @ filter grammar_token consumed \<and>
           r_cache r' = Some (captured @ filter grammar_token consumed)
       | None \<Rightarrow>
           r_fed r' = r_fed ?r1 \<and> r_cache r' = None \<and>
           filter grammar_token consumed = (if e = PushThrew then [last consumed] else []) \<and>
           (e = PushThrew \<longrightarrow> consumed \<noteq> [])"
      by blast
    have "t # ts = (t # consumed) @ rest \<and> (e = Finished \<longrightarrow> rest = []) \<and>
        r_lexed r' = r_lexed r @ (t # consumed) \<and>
        (case r_cache r of
           Some captured \<Rightarrow>
             e \<noteq> PushThrew \<and> r_fed r' = r_fed r @ filter grammar_token (t # consumed) \<and>
             r_cache r' = Some (captured @ filter grammar_token (t # consumed))
         | None \<Rightarrow>
             r_fed r' = r_fed r \<and> r_cache r' = None \<and>
             filter grammar_token (t # consumed) =
               (if e = PushThrew then [last (t # consumed)] else []) \<and>
             (e = PushThrew \<longrightarrow> t # consumed \<noteq> []))"
      using c False by (auto split: option.splits)
    then show ?thesis by blast
  next
    case True
    show ?thesis
    proof (cases "r_cache r")
      case None
      with True Cons.prems have "r' = ?r1" "e = PushThrew"
        by (simp_all add: ignored_iff Let_def)
      with True None have "t # ts = [t] @ ts \<and> (e = Finished \<longrightarrow> ts = []) \<and>
          r_lexed r' = r_lexed r @ [t] \<and>
          (case r_cache r of
             Some captured \<Rightarrow>
               e \<noteq> PushThrew \<and> r_fed r' = r_fed r @ filter grammar_token [t] \<and>
               r_cache r' = Some (captured @ filter grammar_token [t])
           | None \<Rightarrow>
               r_fed r' = r_fed r \<and> r_cache r' = None \<and>
               filter grammar_token [t] = (if e = PushThrew then [last [t]] else []) \<and>
               (e = PushThrew \<longrightarrow> [t] \<noteq> []))"
        by simp
      then show ?thesis by blast
    next
      case (Some captured)
      let ?r2 = "?r1\<lparr>r_cache := Some (captured @ [t]), r_fed := r_fed ?r1 @ [t]\<rparr>"
      show ?thesis
      proof (cases "p_feed G (r_parser r) t")
        case None
        with True Some Cons.prems have "r' = ?r2" "e = FeedThrew"
          by (simp_all add: ignored_iff Let_def)
        with True Some have "t # ts = [t] @ ts \<and> (e = Finished \<longrightarrow> ts = []) \<and>
            r_lexed r' = r_lexed r @ [t] \<and>
            (case r_cache r of
               Some captured \<Rightarrow>
                 e \<noteq> PushThrew \<and> r_fed r' = r_fed r @ filter grammar_token [t] \<and>
                 r_cache r' = Some (captured @ filter grammar_token [t])
             | None \<Rightarrow>
                 r_fed r' = r_fed r \<and> r_cache r' = None \<and>
                 filter grammar_token [t] = (if e = PushThrew then [last [t]] else []) \<and>
                 (e = PushThrew \<longrightarrow> [t] \<noteq> []))"
          by simp
        then show ?thesis by blast
      next
        case (Some p')
        with True \<open>r_cache r = Some captured\<close> Cons.prems
        have "parse_loop G (?r2\<lparr>r_parser := p'\<rparr>) ts = (r', e)"
          by (simp add: ignored_iff Let_def)
        from Cons.IH [OF this] obtain consumed rest where c:
          "ts = consumed @ rest" "e = Finished \<longrightarrow> rest = []"
          "r_lexed r' = r_lexed ?r1 @ consumed"
          "e \<noteq> PushThrew" "r_fed r' = r_fed ?r2 @ filter grammar_token consumed"
          "r_cache r' = Some ((captured @ [t]) @ filter grammar_token consumed)"
          by auto
        with True \<open>r_cache r = Some captured\<close>
        have "t # ts = (t # consumed) @ rest \<and> (e = Finished \<longrightarrow> rest = []) \<and>
            r_lexed r' = r_lexed r @ (t # consumed) \<and>
            (case r_cache r of
               Some captured \<Rightarrow>
                 e \<noteq> PushThrew \<and> r_fed r' = r_fed r @ filter grammar_token (t # consumed) \<and>
                 r_cache r' = Some (captured @ filter grammar_token (t # consumed))
             | None \<Rightarrow>
                 r_fed r' = r_fed r \<and> r_cache r' = None \<and>
                 filter grammar_token (t # consumed) =
                   (if e = PushThrew then [last (t # consumed)] else []) \<and>
                 (e = PushThrew \<longrightarrow> t # consumed \<noteq> []))"
          by simp
        then show ?thesis by blast
      qed
    qed
  qed
qed

lemma tokenCache_reset_read:
  "tokenCache_reset tc file file = (if file = ''length'' then None else Some [])"
  by (simp add: tokenCache_reset_def array_set_length_def)

lemma parse_unfold:
  "parse lexer G s code file =
     (let s0 = s\<lparr>tokenCache := tokenCache_reset (tokenCache s) file\<rparr>;
          r = fst (parse_loop G (run_start G (tokenCache s0 file)) (lexer code));
          e = snd (parse_loop G (run_start G (tokenCache s0 file)) (lexer code));
          s1 = (case r_cache r of
                  Some captured \<Rightarrow> s0\<lparr>tokenCache := (tokenCache s0)(file \<mapsto> captured)\<rparr>
                | None \<Rightarrow> s0)
      in if e = Finished
         then (Inr (RootNode_new (fst (p_results G (r_parser r)))
                      (snd (p_results G (r_parser r)))), s1)
         else (Inl (parse_catch s1 file), s1))"
  by (simp add: parse_def Let_def split: prod.splits)






section \<open>The file name as a key of the caches\<close>

text \<open>
  For a file name other than \<^verbatim>\<open>length\<close> the tree of a successful parse does not read
  the caches of the instance or the file name; the lexer and the grammar are functions of
  the code here.
\<close>

lemma parse_result_plain_key:
  assumes "fst (parse lexer G s code file) = Inr root"
    and "file \<noteq> ''length''" and "file' \<noteq> ''length''"
  shows "fst (parse lexer G s' code file') = Inr root"
  using assms
  by (simp add: parse_unfold Let_def tokenCache_reset_read split: if_splits)

text \<open>
  Claim C7, on the code: the text of the comment test of test.js parses to a tree under
  the file name \<^verbatim>\<open>sl-comment.scad\<close>; with a fresh instance and the file name
  \<^verbatim>\<open>length\<close> the same text raises a \<^verbatim>\<open>RangeError\<close> in \<^verbatim>\<open>parseAST\<close>, at
  \<^verbatim>\<open>this.codeCache[file] = code\<close>, and a \<^verbatim>\<open>TypeError\<close> in \<^verbatim>\<open>parse\<close>, where
  \<^verbatim>\<open>this.tokenCache[file].push\<close> is no function and the \<^verbatim>\<open>catch\<close> block fails in
  \<^verbatim>\<open>getCodeExcerpt\<close>.
\<close>

theorem parse_file_name_length:
  "(case fst (parseAST lexer_of_tests (fragment_grammar :: (unit gstate, unit) nearley)
                Map.empty length_of_tests SCADParser_new (JString ''sl-comment.scad'')
                (JString (''// Single line comment'' @ [nl]))) of
      Inr root \<Rightarrow> True
    | Inl e \<Rightarrow> False) \<and>
   fst (parseAST lexer_of_tests (fragment_grammar :: (unit gstate, unit) nearley)
          Map.empty length_of_tests SCADParser_new (JString ''length'')
          (JString (''// Single line comment'' @ [nl]))) = Inl RangeError \<and>
   fst (parse lexer_of_tests (fragment_grammar :: (unit gstate, unit) nearley)
          SCADParser_new (''// Single line comment'' @ [nl]) ''length'') = Inl TypeError"
  by code_simp


section \<open>The code excerpt\<close>

text \<open>
  Claim C2, on the code: for a failure on line 6 of a text of eight lines the excerpt
  starts at line 2, four lines before the failing line, and ends at line 8, two lines
  after it; the marker is beneath line 7, not beneath the failing line. The callback
  compares the index in the slice with \<^verbatim>\<open>location.line - 1\<close>, which is the index in the
  whole text, and the window \<^verbatim>\<open>line - (lines + 2)\<close> to \<^verbatim>\<open>line + (lines - 1)\<close> is not
  centred on the failing line.
\<close>

theorem getCodeExcerpt_line_six:
  "getCodeExcerpt ((SCADParser_new :: unit scad)\<lparr>codeCache := [''f'' \<mapsto> eight_lines]\<rparr>) ''f''
     (Location_new (Some (mk_token ''rparent'' '')'' 25 1 0 6 1))) 3 =
   Inr (''2: a=2;'' @ [nl] @ ''3: a=3;'' @ [nl] @ ''4: a=4;'' @ [nl] @ ''5: a=5;'' @ [nl] @
        ''6: )'' @ [nl] @ ''7: a=7;'' @ [nl] @ ''   ^^'' @ [nl] @ ''8: a=8;'')"
  by code_simp

section \<open>The errors of parse\<close>

text \<open>
  Claim C1, on the code: on \<^verbatim>\<open>myVar module ;\<close> the parser throws at the second captured
  token, the error is a parser error, and the last tokens it carries are
  \<^verbatim>\<open>tokenCache.slice(2 - 3, 2)\<close>: the second token alone, not the two tokens seen.
\<close>

theorem parse_error_two_captured:
  "(case parseAST lexer_of_tests (fragment_grammar :: (unit gstate, unit) nearley) Map.empty
          length_of_tests SCADParser_new (JString ''parser_error.scad'')
          (JString ''myVar module ;'') of
      (Inl (ParserError msg lastTokens loc excerpt), s') \<Rightarrow>
        tokenCache s' ''parser_error.scad'' =
          Some [mk_token ''identifier'' ''myVar'' 0 5 0 1 1,
                mk_token ''identifier'' ''module'' 6 6 0 1 7] \<and>
        lastTokens = [mk_token ''identifier'' ''module'' 6 6 0 1 7]
    | _ \<Rightarrow> False)"
  by code_simp

text \<open>The other failing input of test.js raises a lexer error.\<close>

lemma parse_lexer_error_example:
  "(case fst (parseAST lexer_of_tests (fragment_grammar :: (unit gstate, unit) nearley)
                Map.empty length_of_tests SCADParser_new (JString ''lexer_error.scad'')
                (JString ''&%!;'')) of
      Inl (LexerError msg loc) \<Rightarrow> take 12 msg = ''Lexer error:''
    | _ \<Rightarrow> False)"
  by code_simp

text \<open>
  What \<^verbatim>\<open>slice(length - 3, length)\<close> gives: the last three tokens of three or more,
  every token of one or none, and only the last of two.
\<close>

lemma js_slice_last_three:
  "js_slice xs (int (length xs) - 3) (int (length xs)) =
     (if length xs = 2 then drop 1 xs else drop (length xs - 3) xs)"
proof (cases "3 \<le> length xs")
  case True
  then have "nat (int (length xs) - 3) = length xs - 3"
    by simp
  with True show ?thesis
    by (simp add: js_slice_def Let_def min_def)
next
  case False
  then consider "length xs = 0" | "length xs = 1" | "length xs = 2"
    by linarith
  then show ?thesis
    by cases (simp_all add: js_slice_def Let_def)
qed

text \<open>
  The classification of the error of a failed parse, for a file name other than
  \<^verbatim>\<open>length\<close> whose code is cached (as it is when \<^verbatim>\<open>parse\<close> is called by
  \<^verbatim>\<open>parseAST\<close>): a lexer error when the last captured token is of the kind
  \<^verbatim>\<open>LexerError\<close>, a parser error otherwise.
\<close>

lemma parse_error_classification:
  assumes "parse lexer G s code file = (Inl e, s')" and "codeCache s file = Some src"
    and "file \<noteq> ''length''"
  shows "\<exists>toks. tokenCache s' file = Some toks \<and>
     (if toks \<noteq> [] \<and> tok_type (last toks) = ''LexerError''
      then \<exists>msg loc. e = LexerError msg loc
      else \<exists>msg loc ex.
             e = ParserError msg (js_slice toks (int (length toks) - 3) (int (length toks)))
                   loc ex)"
proof -
  let ?s0 = "s\<lparr>tokenCache := tokenCache_reset (tokenCache s) file\<rparr>"
  let ?start = "run_start G (Some [])"
  obtain r fin where l: "parse_loop G ?start (lexer code) = (r, fin)"
    by (cases "parse_loop G ?start (lexer code)")
  from parse_loop_logs [OF l] obtain toks where c: "r_cache r = Some toks"
    by (auto simp: run_start_def)
  let ?s1 = "?s0\<lparr>tokenCache := (tokenCache ?s0)(file \<mapsto> toks)\<rparr>"
  from assms(1,3) l c have e: "e = parse_catch ?s1 file" and s': "s' = ?s1"
    by (auto simp: parse_unfold Let_def tokenCache_reset_read split: if_splits)
  have x: "\<exists>ex. getCodeExcerpt ?s1 file loc 3 = Inr ex" for loc
    using assms(2) by (simp add: getCodeExcerpt_def Let_def)
  have t: "tokenCache s' file = Some toks"
    by (simp add: s')
  show ?thesis
  proof (cases "toks = []")
    case True
    with x [of "Location_new None"] show ?thesis
      unfolding t e
      by (auto simp: parse_catch_def raise_parser_error_def Let_def)
  next
    case False
    then have n: "toks ! (length toks - Suc 0) = last toks"
      by (simp add: last_conv_nth)
    from False x [of "Location_new (Some (last toks))"] show ?thesis
      unfolding t e
      by (auto simp: parse_catch_def raise_parser_error_def raise_lexer_error_def Let_def n)
  qed
qed

section \<open>The tree a parse returns\<close>

text \<open>
  The root that \<^verbatim>\<open>parse\<close> returns is the root of a tree when the statements in the
  result of the grammar are roots of trees in the store of the grammar's nodes.
\<close>

lemma parse_returns_tree:
  assumes "fst (parse lexer G s code file) = Inr (root, h')"
    and "\<And>p. list_all (free_root (fst (p_results G p))) (case snd (p_results G p) of Some cs \<Rightarrow> cs | None \<Rightarrow> [])"
  shows "tree_at h' root"
proof -
  have "\<exists>p. RootNode_new (fst (p_results G p)) (snd (p_results G p)) = (root, h')"
    using assms(1) by (auto simp: parse_unfold Let_def split: if_splits)
  then obtain p where r: "(root, h') = RootNode_new (fst (p_results G p)) (snd (p_results G p))"
    by metis
  show ?thesis
  proof (cases "snd (p_results G p)")
    case None
    with r show ?thesis
      by (auto simp: RootNode_new_def Let_def Node_constructor_def blank_def nth_append
          intro!: tree_at_leaf)
  next
    case (Some cs)
    with assms(2) [of p] have "list_all (free_root (fst (p_results G p))) cs"
      by simp
    from tree_at_Node_constructor [OF this, of PRoot None] r Some show ?thesis
      by (simp add: RootNode_new_def Let_def)
  qed
qed

end
